theory Spec2Isabelle
  imports Main "HOL-Library.Word"
begin

section \<open>Strings of the host language\<close>

text \<open>
  A string of the program is a sequence of UTF-16 code units, and two strings are equal
  (\<open>===\<close>) when they are the same sequence. \<open>js\<close> writes a string of the program from a
  literal of characters below 256.
\<close>

type_synonym codeunit = "16 word"

type_synonym jsstring = "codeunit list"

definition js :: "string \<Rightarrow> jsstring" where
  "js s = map of_char s"

text \<open>
  \<open>String.prototype.trim\<close> strips from both ends the code points of the ECMAScript
  productions WhiteSpace (TAB, VT, FF, ZWNBSP and the space separators of Unicode) and
  LineTerminator (LF, CR, LS, PS).
\<close>

definition isWhiteSpace :: "codeunit \<Rightarrow> bool" where
  "isWhiteSpace c =
     (c \<in> set [0x0009, 0x000A, 0x000B, 0x000C, 0x000D, 0x0020, 0x00A0, 0x1680,
               0x2000, 0x2001, 0x2002, 0x2003, 0x2004, 0x2005, 0x2006, 0x2007, 0x2008,
               0x2009, 0x200A, 0x2028, 0x2029, 0x202F, 0x205F, 0x3000, 0xFEFF])"

definition trim :: "jsstring \<Rightarrow> jsstring" where
  "trim s = rev (dropWhile isWhiteSpace (rev (dropWhile isWhiteSpace s)))"

text \<open>Truthiness of a string value: every string but the empty one.\<close>

definition truthy :: "jsstring \<Rightarrow> bool" where
  "truthy s = (s \<noteq> [])"

text \<open>\<open>String(n)\<close> of a non-negative integer, as a template literal renders it.\<close>

definition digit :: "nat \<Rightarrow> codeunit" where
  "digit d = of_nat (48 + d)"

fun decimal :: "nat \<Rightarrow> jsstring" where
  "decimal n = (if n < 10 then [digit n] else decimal (n div 10) @ [digit (n mod 10)])"

declare decimal.simps [simp del]

text \<open>
  \<open>Array.prototype.findIndex\<close>: the index of the first element satisfying the predicate,
  or \<open>-1\<close> when there is none.
\<close>

fun findIndex :: "('a \<Rightarrow> bool) \<Rightarrow> 'a list \<Rightarrow> int" where
  "findIndex P [] = - 1"
| "findIndex P (x # xs) =
     (if P x then 0 else (let r = findIndex P xs in if r < 0 then - 1 else r + 1))"

section \<open>Data of the component\<close>

definition MAX_URLS :: nat where
  "MAX_URLS = 5"

record WebInputData =
  url :: jsstring

text \<open>
  \<open>asValidURL(text, relaxProtocol)\<close> is imported from the URL utilities and returns a string
  or \<open>null\<close>. The component is modelled for an arbitrary such function.
\<close>

type_synonym validator = "jsstring \<Rightarrow> bool \<Rightarrow> jsstring option"

datatype snackbar_type = Issue | PreconditionFail | Info

record snackbar =
  key :: jsstring
  message :: jsstring
  type :: snackbar_type
  autoHideDuration :: "nat option"

text \<open>
  What a handler does to the outside: the calls it makes, in order, to \<open>addSnackbar\<close> and to
  the two callbacks received as props.
\<close>

datatype effect =
    AddSnackbar snackbar
  | OnWebLinks "WebInputData list"
  | OnClose

section \<open>handleClose and handleSubmit\<close>

text \<open>
  \<open>handleClose\<close> calls \<open>onClose\<close> and nothing else. In \<open>handleSubmit\<close>, \<open>cleanStep\<close> is the
  reducer passed to \<open>links.reduce\<close> and \<open>cleanUrls\<close> the reduction from the empty array.
  With \<open>url\<close> a string, \<open>url || ''\<close> is \<open>url\<close>. The entry pushed is
  \<open>{ url: relaxedUrl, ...linkRest }\<close>: the link with its \<open>url\<close> replaced. The test
  \<open>if (relaxedUrl)\<close> is false for \<open>null\<close> and for the empty string.
\<close>

definition cleanStep :: "validator \<Rightarrow> WebInputData list \<Rightarrow> WebInputData \<Rightarrow> WebInputData list" where
  "cleanStep asValidURL acc link =
     (let trimmed = trim (url link) in
      if truthy trimmed then
        (case asValidURL trimmed True of
           None \<Rightarrow> acc
         | Some relaxedUrl \<Rightarrow>
             if truthy relaxedUrl then acc @ [link\<lparr>url := relaxedUrl\<rparr>] else acc)
      else acc)"

definition cleanUrls :: "validator \<Rightarrow> WebInputData list \<Rightarrow> WebInputData list" where
  "cleanUrls asValidURL links = foldl (cleanStep asValidURL) [] links"

definition invalidUrlsSnackbar :: snackbar where
  "invalidUrlsSnackbar =
     \<lparr>key = js ''invalid-urls'', message = js ''Please enter at least one valid web address'',
      type = Issue, autoHideDuration = Some 2000\<rparr>"

definition handleClose :: "effect list" where
  "handleClose = [OnClose]"

definition handleSubmit :: "validator \<Rightarrow> WebInputData list \<Rightarrow> effect list" where
  "handleSubmit asValidURL links =
     (let clean = cleanUrls asValidURL links in
      if clean = [] then [AddSnackbar invalidUrlsSnackbar]
      else OnWebLinks clean # handleClose)"

section \<open>handleAddUrl\<close>

text \<open>
  The three operations of the form library's field array that the component calls:
  \<open>append\<close> adds an entry at the end, \<open>update\<close> replaces the entry at an index,
  \<open>remove\<close> deletes the entry at an index.
\<close>

definition formFieldsAppend :: "WebInputData list \<Rightarrow> WebInputData \<Rightarrow> WebInputData list" where
  "formFieldsAppend fs v = fs @ [v]"

definition formFieldsUpdate :: "WebInputData list \<Rightarrow> nat \<Rightarrow> WebInputData \<Rightarrow> WebInputData list" where
  "formFieldsUpdate fs i v = fs[i := v]"

definition formFieldsRemove :: "WebInputData list \<Rightarrow> nat \<Rightarrow> WebInputData list" where
  "formFieldsRemove fs i = take i fs @ drop (Suc i) fs"

definition maxUrlsSnackbar :: snackbar where
  "maxUrlsSnackbar =
     \<lparr>key = js ''max-urls'', message = js ''Maximum '' @ decimal MAX_URLS @ js '' URLs allowed'',
      type = PreconditionFail, autoHideDuration = None\<rparr>"

definition duplicateUrlSnackbar :: snackbar where
  "duplicateUrlSnackbar =
     \<lparr>key = js ''duplicate-url'', message = js ''URL already added'',
      type = Info, autoHideDuration = None\<rparr>"

text \<open>The handler returns the field array it leaves behind and the calls it made.\<close>

definition handleAddUrl :: "WebInputData list \<Rightarrow> jsstring \<Rightarrow> WebInputData list \<times> effect list" where
  "handleAddUrl formFields newUrl =
     (let urlFieldCount = length formFields;
          canAddMoreUrls = urlFieldCount < MAX_URLS
      in
      if \<not> canAddMoreUrls then (formFields, [AddSnackbar maxUrlsSnackbar])
      else
        let exists = list_ex (\<lambda>f. url f = newUrl) formFields in
        if exists then (formFields, [AddSnackbar duplicateUrlSnackbar])
        else
          let emptyFieldIndex = findIndex (\<lambda>field. \<not> truthy (trim (url field))) formFields in
          if emptyFieldIndex \<ge> 0
          then (formFieldsUpdate formFields (nat emptyFieldIndex) \<lparr>url = newUrl\<rparr>, [])
          else (formFieldsAppend formFields \<lparr>url = newUrl\<rparr>, []))"

section \<open>The detected URLs section\<close>

text \<open>
  The part of the rendered tree under \<open>!!extractedUrlsCount && (...)\<close>: \<open>None\<close> when nothing
  is rendered, otherwise the title line and one chip per extracted URL. A chip records its
  \<open>key\<close>, the argument its \<open>onClick\<close> passes to \<open>handleAddUrl\<close>, its icon and its text.
  \<open>extractUrlsFromText\<close> and \<open>extractYoutubeVideoIDFromURL\<close> are imported functions and are
  parameters here; the second returns a string or \<open>null\<close>.
\<close>

datatype icon = YouTubeIcon | LanguageRoundedIcon

record chip =
  chipKey :: nat
  onClick :: jsstring
  startDecorator :: icon
  children :: jsstring

record detectedUrls =
  title :: jsstring
  chips :: "chip list"

definition truthyOpt :: "jsstring option \<Rightarrow> bool" where
  "truthyOpt r = (case r of None \<Rightarrow> False | Some s \<Rightarrow> truthy s)"

definition detectedUrlsSection ::
  "(jsstring \<Rightarrow> jsstring list) \<Rightarrow> (jsstring \<Rightarrow> jsstring option) \<Rightarrow> jsstring \<Rightarrow> detectedUrls option" where
  "detectedUrlsSection extractUrlsFromText extractYoutubeVideoIDFromURL composerText =
     (let extractedComposerUrls = extractUrlsFromText composerText;
          extractedUrlsCount = length extractedComposerUrls
      in
      if extractedUrlsCount = 0 then None
      else Some
        \<lparr>title = decimal extractedUrlsCount @ js '' URL''
                   @ (if extractedUrlsCount > 1 then js ''s'' else [])
                   @ js '' found in your message'',
         chips = map (\<lambda>(index, u).
                   \<lparr>chipKey = index, onClick = u,
                    startDecorator = (if truthyOpt (extractYoutubeVideoIDFromURL u)
                                      then YouTubeIcon else LanguageRoundedIcon),
                    children = u\<rparr>)
                 (enumerate 0 extractedComposerUrls)\<rparr>)"

section \<open>The form as a state machine\<close>

text \<open>
  The form library holds two arrays of entries. \<open>formValues\<close> is the current value of
  \<open>links\<close>: what the inputs show and what a submit hands to \<open>handleSubmit\<close>. \<open>arrayFields\<close> is
  the \<open>fields\<close> array that \<open>useFieldArray\<close> gives to the component, which calls it
  \<open>formFields\<close>: the rows are rendered from it, \<open>urlFieldCount\<close> is its length, and
  \<open>handleAddUrl\<close> reads it. Typing into a row goes through the \<open>onChange\<close> of its
  \<open>Controller\<close> and changes \<open>formValues\<close> only. The operations \<open>append\<close>, \<open>update\<close> and
  \<open>remove\<close> of the field array work on the current values and publish the result as the
  new \<open>fields\<close>. The form starts from \<open>values: { links: [{ url: '' }] }\<close>.
\<close>

record formState =
  arrayFields :: "WebInputData list"
  formValues :: "WebInputData list"

definition initialForm :: formState where
  "initialForm = \<lparr>arrayFields = [\<lparr>url = []\<rparr>], formValues = [\<lparr>url = []\<rparr>]\<rparr>"

definition published :: "WebInputData list \<Rightarrow> formState" where
  "published entries = \<lparr>arrayFields = entries, formValues = entries\<rparr>"

definition fieldArrayAppend :: "formState \<Rightarrow> WebInputData \<Rightarrow> formState" where
  "fieldArrayAppend s v = published (formFieldsAppend (formValues s) v)"

definition fieldArrayUpdate :: "formState \<Rightarrow> nat \<Rightarrow> WebInputData \<Rightarrow> formState" where
  "fieldArrayUpdate s i v = published (formFieldsUpdate (formValues s) i v)"

definition fieldArrayRemove :: "formState \<Rightarrow> nat \<Rightarrow> formState" where
  "fieldArrayRemove s i = published (formFieldsRemove (formValues s) i)"

text \<open>
  \<open>handleAddUrl\<close> inside the form: its tests and the index it computes come from
  \<open>formFields\<close>, the \<open>fields\<close> of the last render, and its calls of \<open>formFieldsUpdate\<close> and
  \<open>formFieldsAppend\<close> reach the form library. When nothing was typed since the last
  operation of the field array, the two arrays agree and this is \<open>handleAddUrl\<close> above.
\<close>

definition handleAddUrl_form :: "formState \<Rightarrow> jsstring \<Rightarrow> formState \<times> effect list" where
  "handleAddUrl_form s newUrl =
     (let formFields = arrayFields s;
          urlFieldCount = length formFields;
          canAddMoreUrls = urlFieldCount < MAX_URLS
      in
      if \<not> canAddMoreUrls then (s, [AddSnackbar maxUrlsSnackbar])
      else
        let exists = list_ex (\<lambda>f. url f = newUrl) formFields in
        if exists then (s, [AddSnackbar duplicateUrlSnackbar])
        else
          let emptyFieldIndex = findIndex (\<lambda>field. \<not> truthy (trim (url field))) formFields in
          if emptyFieldIndex \<ge> 0
          then (fieldArrayUpdate s (nat emptyFieldIndex) \<lparr>url = newUrl\<rparr>, [])
          else (fieldArrayAppend s \<lparr>url = newUrl\<rparr>, []))"

text \<open>
  The controls of the form and what each does:
  \<^item> a chip calls \<open>handleAddUrl\<close>;
  \<^item> the button \<open>Another\<close> is \<open>disabled\<close> unless \<open>canAddMoreUrls\<close>, and appends an empty entry;
  \<^item> the delete button of a row exists only under \<open>urlFieldCount > 1\<close>, and removes that row;
  \<^item> typing into a rendered row sets the \<open>url\<close> of that row's value;
  \<^item> submitting hands the current values to \<open>handleSubmit\<close> as \<open>links\<close>.
  A click on a control that is disabled or not rendered changes nothing. The form library
  further hides \<open>Another\<close> while the form is not dirty, disables the submit button while the
  form is not dirty or not valid, and checks the rule \<open>required\<close> of every row before it
  calls \<open>handleSubmit\<close>; and a submit that hands links back closes the dialog. Leaving
  these checks out and letting events follow such a submit admits more runs of the form,
  never fewer. A chip may carry any string, not only one found in the composer text.
\<close>

datatype formEvent =
    ClickChip jsstring
  | ClickAnother
  | ClickRemove nat
  | ChangeInput nat jsstring
  | SubmitForm

definition formStep :: "validator \<Rightarrow> formState \<Rightarrow> formEvent \<Rightarrow> formState \<times> effect list" where
  "formStep asValidURL s e =
     (let urlFieldCount = length (arrayFields s);
          canAddMoreUrls = urlFieldCount < MAX_URLS
      in
      case e of
        ClickChip u \<Rightarrow> handleAddUrl_form s u
      | ClickAnother \<Rightarrow>
          if canAddMoreUrls then (fieldArrayAppend s \<lparr>url = []\<rparr>, [])
          else (s, [])
      | ClickRemove index \<Rightarrow>
          if urlFieldCount > 1 \<and> index < urlFieldCount
          then (fieldArrayRemove s index, [])
          else (s, [])
      | ChangeInput index v \<Rightarrow>
          if index < urlFieldCount
          then (s\<lparr>formValues := (formValues s)[index := (formValues s ! index)\<lparr>url := v\<rparr>]\<rparr>, [])
          else (s, [])
      | SubmitForm \<Rightarrow> (s, handleSubmit asValidURL (formValues s)))"

fun formRun :: "validator \<Rightarrow> formState \<Rightarrow> formEvent list \<Rightarrow> formState \<times> effect list" where
  "formRun asValidURL s [] = (s, [])"
| "formRun asValidURL s (e # es) =
     (let (s', out) = formStep asValidURL s e;
          (s'', outs) = formRun asValidURL s' es
      in (s'', out @ outs))"

text \<open>
  What holds of the form between events: between one and five rows, and as many values as
  rows.
\<close>

definition formInv :: "formState \<Rightarrow> bool" where
  "formInv s = (1 \<le> length (arrayFields s) \<and> length (arrayFields s) \<le> 5
                \<and> length (formValues s) = length (arrayFields s))"

section \<open>useWebInputModal\<close>

text \<open>
  The hook keeps \<open>open\<close> (a state), \<open>composerTextRef\<close> (a ref assigned on every render) and
  the memoised \<open>webInputDialogComponent\<close>, recomputed when \<open>onAttachWebLinks\<close> or \<open>open\<close>
  differs from the previous render. The component is \<open>None\<close> for the value \<open>false\<close>, and
  otherwise carries the \<open>composerText\<close> prop of the dialog; the other two props are fixed:
  \<open>onClose\<close> sets \<open>open\<close> to false and \<open>onWebLinks\<close> is \<open>onAttachWebLinks\<close>.
  \<open>memoOpen\<close> is the value of \<open>open\<close> the memo was last computed for.
\<close>

record hookState =
  "open" :: bool
  composerTextRef :: jsstring
  webInputDialogComponent :: "jsstring option"
  memoOpen :: "bool option"

definition hookRender :: "jsstring \<Rightarrow> bool \<Rightarrow> hookState \<Rightarrow> hookState" where
  "hookRender composerText attachChanged s =
     (let s1 = s\<lparr>composerTextRef := composerText\<rparr> in
      if attachChanged \<or> memoOpen s1 \<noteq> Some (open s1)
      then s1\<lparr>webInputDialogComponent :=
                 (if open s1 then Some (composerTextRef s1) else None),
               memoOpen := Some (open s1)\<rparr>
      else s1)"

definition hookMount :: "jsstring \<Rightarrow> hookState" where
  "hookMount composerText =
     hookRender composerText True
       \<lparr>open = False, composerTextRef = composerText,
        webInputDialogComponent = None, memoOpen = None\<rparr>"

text \<open>
  What can happen to the hook: its owner calls \<open>openWebInputDialog\<close>, the dialog is closed
  or cancelled (\<open>handleClose\<close>), the dialog's form is submitted, or the owner renders again
  with a new text and possibly a new callback. A state change is followed by a render, with
  the text of the render before and the same callback.
  The dialog's events exist only while the dialog is rendered. Of the calls made by
  \<open>handleSubmit\<close>, \<open>OnClose\<close> is the hook's own \<open>setOpen(false)\<close>; the others leave the hook,
  \<open>OnWebLinks\<close> being the call of \<open>onAttachWebLinks\<close>.
\<close>

datatype hookEvent =
    OpenWebInputDialog
  | CloseDialog
  | SubmitDialog "WebInputData list"
  | Rerender jsstring bool

definition setOpen :: "bool \<Rightarrow> hookState \<Rightarrow> hookState" where
  "setOpen b s = hookRender (composerTextRef s) False (s\<lparr>open := b\<rparr>)"

definition fromDialog :: "hookState \<Rightarrow> effect list \<Rightarrow> hookState \<times> effect list" where
  "fromDialog s calls =
     (if OnClose \<in> set calls then setOpen False s else s,
      filter (\<lambda>c. c \<noteq> OnClose) calls)"

definition hookStep :: "validator \<Rightarrow> hookState \<Rightarrow> hookEvent \<Rightarrow> hookState \<times> effect list" where
  "hookStep asValidURL s e =
     (case e of
        OpenWebInputDialog \<Rightarrow> (setOpen True s, [])
      | CloseDialog \<Rightarrow>
          if webInputDialogComponent s = None then (s, [])
          else fromDialog s handleClose
      | SubmitDialog links \<Rightarrow>
          if webInputDialogComponent s = None then (s, [])
          else fromDialog s (handleSubmit asValidURL links)
      | Rerender composerText attachChanged \<Rightarrow> (hookRender composerText attachChanged s, []))"

fun hookRun :: "validator \<Rightarrow> hookState \<Rightarrow> hookEvent list \<Rightarrow> hookState" where
  "hookRun asValidURL s [] = s"
| "hookRun asValidURL s (e # es) = hookRun asValidURL (fst (hookStep asValidURL s e)) es"

text \<open>Whether an event closes the dialog: closing it, or a submit that hands links back.\<close>

definition closes :: "validator \<Rightarrow> hookEvent \<Rightarrow> bool" where
  "closes asValidURL e =
     (case e of
        CloseDialog \<Rightarrow> True
      | SubmitDialog links \<Rightarrow> cleanUrls asValidURL links \<noteq> []
      | _ \<Rightarrow> False)"

text \<open>
  Whether, at the end of a sequence of events, the dialog has been opened and not closed
  since: the last event that opens or closes is an opening.
\<close>

fun openedNotClosed :: "validator \<Rightarrow> bool \<Rightarrow> hookEvent list \<Rightarrow> bool" where
  "openedNotClosed asValidURL b [] = b"
| "openedNotClosed asValidURL b (e # es) =
     openedNotClosed asValidURL
       (if e = OpenWebInputDialog then True else if closes asValidURL e then False else b) es"

text \<open>
  What holds of the hook between events: the memo was computed for the current value of
  \<open>open\<close>, and the component is present exactly when \<open>open\<close> is true.
\<close>

definition hookInv :: "hookState \<Rightarrow> bool" where
  "hookInv s = (memoOpen s = Some (open s) \<and> (webInputDialogComponent s \<noteq> None \<longleftrightarrow> open s))"

section \<open>The validator, from its description\<close>

text \<open>
  Modelled from the spec: \<open>asValidURL\<close> of the URL utilities, which is not among the sources.
  A relaxed URL is a user-entered string treated as a URL even without an explicit scheme,
  defaulting to \<open>https://\<close>: a string that carries a scheme (it starts with \<open>http://\<close> or
  \<open>https://\<close>) is handed back as it is, one without a scheme is handed back with \<open>https://\<close>
  in front when the relaxed flag is set and is refused otherwise; nothing is a URL when the
  text is empty.
\<close>

definition hasScheme :: "jsstring \<Rightarrow> bool" where
  "hasScheme s = (take 7 s = js ''http://'' \<or> take 8 s = js ''https://'')"

definition asValidURL_model :: validator where
  "asValidURL_model textString relaxProtocol =
     (if textString = [] then None
      else if hasScheme textString then Some textString
      else if relaxProtocol then Some (js ''https://'' @ textString)
      else None)"

section \<open>The cleaned list, as described\<close>

text \<open>
  An entry passes validation when the validator, in relaxed mode, hands back a non-empty
  string for its trimmed \<open>url\<close>; it is kept when moreover the trimmed \<open>url\<close> is non-empty.
  The list described keeps these entries in their order, each with its \<open>url\<close> replaced by
  what the validator handed back.
\<close>

definition passesValidation :: "validator \<Rightarrow> jsstring \<Rightarrow> bool" where
  "passesValidation asValidURL t =
     (case asValidURL t True of None \<Rightarrow> False | Some r \<Rightarrow> r \<noteq> [])"

definition kept :: "validator \<Rightarrow> WebInputData \<Rightarrow> bool" where
  "kept asValidURL link =
     (trim (url link) \<noteq> [] \<and> passesValidation asValidURL (trim (url link)))"

definition normalized :: "validator \<Rightarrow> WebInputData \<Rightarrow> WebInputData" where
  "normalized asValidURL link = link\<lparr>url := the (asValidURL (trim (url link)) True)\<rparr>"

definition cleanUrls_described :: "validator \<Rightarrow> WebInputData list \<Rightarrow> WebInputData list" where
  "cleanUrls_described asValidURL links =
     map (normalized asValidURL) (filter (kept asValidURL) links)"

section \<open>Basic facts\<close>

lemma dropWhile_all_iff: "(\<forall>x \<in> set (dropWhile P s). P x) \<longleftrightarrow> (\<forall>x \<in> set s. P x)"
  by (induction s) auto

lemma trim_Nil_iff: "trim s = [] \<longleftrightarrow> (\<forall>c \<in> set s. isWhiteSpace c)"
  by (simp add: trim_def dropWhile_all_iff)

lemma maxUrlsSnackbar_eq:
  "maxUrlsSnackbar = \<lparr>key = js ''max-urls'', message = js ''Maximum 5 URLs allowed'',
                       type = PreconditionFail, autoHideDuration = None\<rparr>"
  by (simp add: maxUrlsSnackbar_def MAX_URLS_def decimal.simps digit_def js_def)

lemma cleanStep_eq:
  "cleanStep v acc l = acc @ (if kept v l then [normalized v l] else [])"
  by (simp add: cleanStep_def kept_def normalized_def passesValidation_def truthy_def Let_def
           split: option.split)

lemma foldl_cleanStep:
  "foldl (cleanStep v) acc links = acc @ cleanUrls_described v links"
  by (induction links arbitrary: acc) (simp_all add: cleanUrls_described_def cleanStep_eq)

lemma cleanUrls_eq_described: "cleanUrls v links = cleanUrls_described v links"
  by (simp add: cleanUrls_def foldl_cleanStep)

lemma length_cleanUrls: "length (cleanUrls v links) \<le> length links"
  by (simp add: cleanUrls_eq_described cleanUrls_described_def)

lemma cleanUrls_Nil_iff: "cleanUrls v links = [] \<longleftrightarrow> (\<forall>l \<in> set links. \<not> kept v l)"
  by (simp add: cleanUrls_eq_described cleanUrls_described_def filter_empty_conv)

lemma OnWebLinks_handleSubmit:
  "OnWebLinks L \<in> set (handleSubmit v links) \<longleftrightarrow> cleanUrls v links \<noteq> [] \<and> L = cleanUrls v links"
  by (auto simp: handleSubmit_def handleClose_def Let_def)

section \<open>The list handed back on submit\<close>

text \<open>
  C1. Whatever the validator and the submitted entries, the list computed by \<open>handleSubmit\<close>
  is the list described: the entries whose trimmed \<open>url\<close> is non-empty and passes relaxed
  validation, in their order, each with \<open>asValidURL(trim(url), true)\<close> as its \<open>url\<close>; the other
  entries contribute nothing. Any list handed to \<open>onWebLinks\<close> is that list.
\<close>

theorem handleSubmit_hands_cleaned_list:
  "cleanUrls v links = cleanUrls_described v links
   \<and> (\<forall>L. OnWebLinks L \<in> set (handleSubmit v links) \<longrightarrow> L = cleanUrls_described v links)"
  by (simp add: OnWebLinks_handleSubmit cleanUrls_eq_described)

theorem handleSubmit_hands_cleaned_list_witness:
  "OnWebLinks [\<lparr>url = js ''https://big-agi.com''\<rparr>, \<lparr>url = js ''http://a.b/c d''\<rparr>]
     \<in> set (handleSubmit asValidURL_model
          [\<lparr>url = js ''  big-agi.com ''\<rparr>, \<lparr>url = js ''   ''\<rparr>, \<lparr>url = js ''http://a.b/c d''\<rparr>, \<lparr>url = []\<rparr>])
   \<and> cleanUrls_described asValidURL_model
          [\<lparr>url = js ''  big-agi.com ''\<rparr>, \<lparr>url = js ''   ''\<rparr>, \<lparr>url = js ''http://a.b/c d''\<rparr>, \<lparr>url = []\<rparr>]
       = [\<lparr>url = js ''https://big-agi.com''\<rparr>, \<lparr>url = js ''http://a.b/c d''\<rparr>]"
proof -
  let ?links = "[\<lparr>url = js ''  big-agi.com ''\<rparr>, \<lparr>url = js ''   ''\<rparr>, \<lparr>url = js ''http://a.b/c d''\<rparr>, \<lparr>url = []\<rparr>]"
  let ?out = "[\<lparr>url = js ''https://big-agi.com''\<rparr>, \<lparr>url = js ''http://a.b/c d''\<rparr>]"
  have handed: "OnWebLinks ?out \<in> set (handleSubmit asValidURL_model ?links)"
    by code_simp
  have "?out = cleanUrls_described asValidURL_model ?links"
    using handleSubmit_hands_cleaned_list [of asValidURL_model ?links] handed by blast
  then have "cleanUrls_described asValidURL_model ?links = ?out"
    by (rule sym)
  with handed show ?thesis
    by (rule conjI)
qed

lemma findIndex_ge: "- 1 \<le> findIndex P xs"
  by (induction xs) (simp_all add: Let_def)

lemma findIndex_nonneg_iff: "0 \<le> findIndex P xs \<longleftrightarrow> (\<exists>x \<in> set xs. P x)"
  by (induction xs) (auto simp: Let_def)

lemma findIndex_first:
  "0 \<le> findIndex P xs \<Longrightarrow>
     nat (findIndex P xs) < length xs \<and> P (xs ! nat (findIndex P xs))
     \<and> (\<forall>j < nat (findIndex P xs). \<not> P (xs ! j))"
proof (induction xs)
  case Nil
  then show ?case by simp
next
  case (Cons x xs)
  show ?case
  proof (cases "P x")
    case True
    then show ?thesis by simp
  next
    case False
    with Cons.prems have nn: "0 \<le> findIndex P xs"
      by (simp add: Let_def split: if_splits)
    then have eq: "nat (findIndex P (x # xs)) = Suc (nat (findIndex P xs))"
      using False by (simp add: Let_def nat_add_distrib)
    from Cons.IH [OF nn] False show ?thesis
      unfolding eq by (auto simp: less_Suc_eq_0_disj)
  qed
qed

lemma blank_iff: "\<not> truthy (trim s) \<longleftrightarrow> list_all isWhiteSpace s"
  by (simp add: truthy_def trim_Nil_iff list_all_iff)

lemma accepted_handleAddUrl_eq:
  assumes "length formFields < 5" and "\<forall>f \<in> set formFields. url f \<noteq> newUrl"
  shows "handleAddUrl formFields newUrl =
     (let i = findIndex (\<lambda>field. list_all isWhiteSpace (url field)) formFields in
      if 0 \<le> i then (formFields[nat i := \<lparr>url = newUrl\<rparr>], [])
      else (formFields @ [\<lparr>url = newUrl\<rparr>], []))"
  using assms
  by (simp add: handleAddUrl_def Let_def MAX_URLS_def list_ex_iff blank_iff
        formFieldsUpdate_def formFieldsAppend_def)

lemma handleAddUrl_present:
  assumes "length formFields < 5" and "\<forall>f \<in> set formFields. url f \<noteq> newUrl"
  shows "\<exists>f \<in> set (fst (handleAddUrl formFields newUrl)). url f = newUrl"
proof (cases "0 \<le> findIndex (\<lambda>field. list_all isWhiteSpace (url field)) formFields")
  case True
  from findIndex_first [OF True]
  have "nat (findIndex (\<lambda>field. list_all isWhiteSpace (url field)) formFields) < length formFields"
    by simp
  then show ?thesis
    using accepted_handleAddUrl_eq [OF assms] True
    by (auto simp: Let_def set_update_memI intro!: bexI [where x = "\<lparr>url = newUrl\<rparr>"])
next
  case False
  then show ?thesis
    using accepted_handleAddUrl_eq [OF assms] by (simp add: Let_def)
qed

lemma refused_keeps_fields:
  "5 \<le> length formFields \<or> (\<exists>f \<in> set formFields. url f = newUrl) \<Longrightarrow>
     fst (handleAddUrl formFields newUrl) = formFields"
  by (auto simp: handleAddUrl_def Let_def MAX_URLS_def list_ex_iff)

section \<open>Quick add\<close>

text \<open>
  C5. A quick-add that is refused leaves the field array as it was and shows one snackbar.
  With five fields (or more) the snackbar is \<open>max-urls\<close>, reading
  \<open>Maximum 5 URLs allowed\<close>; this test comes first, so it also decides when the URL is
  present as well. With fewer than five fields and the URL string-equal to the \<open>url\<close> of
  some field, the snackbar is \<open>duplicate-url\<close>, reading \<open>URL already added\<close>.
\<close>


theorem handleAddUrl_refused:
  "(5 \<le> length formFields \<longrightarrow>
      handleAddUrl formFields newUrl =
        (formFields,
         [AddSnackbar \<lparr>key = js ''max-urls'', message = js ''Maximum 5 URLs allowed'',
                       type = PreconditionFail, autoHideDuration = None\<rparr>]))
   \<and> (length formFields < 5 \<and> (\<exists>f \<in> set formFields. url f = newUrl) \<longrightarrow>
      handleAddUrl formFields newUrl =
        (formFields,
         [AddSnackbar \<lparr>key = js ''duplicate-url'', message = js ''URL already added'',
                       type = Info, autoHideDuration = None\<rparr>]))"
  by (simp add: handleAddUrl_def Let_def maxUrlsSnackbar_eq duplicateUrlSnackbar_def
        MAX_URLS_def list_ex_iff)

theorem handleAddUrl_refused_witness:
  "handleAddUrl [\<lparr>url = js ''a''\<rparr>, \<lparr>url = js ''b''\<rparr>, \<lparr>url = js ''c''\<rparr>, \<lparr>url = js ''d''\<rparr>, \<lparr>url = []\<rparr>] (js ''e'')
     = ([\<lparr>url = js ''a''\<rparr>, \<lparr>url = js ''b''\<rparr>, \<lparr>url = js ''c''\<rparr>, \<lparr>url = js ''d''\<rparr>, \<lparr>url = []\<rparr>],
        [AddSnackbar \<lparr>key = js ''max-urls'', message = js ''Maximum 5 URLs allowed'',
                      type = PreconditionFail, autoHideDuration = None\<rparr>])
   \<and> handleAddUrl [\<lparr>url = []\<rparr>, \<lparr>url = js ''b''\<rparr>] (js ''b'')
     = ([\<lparr>url = []\<rparr>, \<lparr>url = js ''b''\<rparr>],
        [AddSnackbar \<lparr>key = js ''duplicate-url'', message = js ''URL already added'',
                      type = Info, autoHideDuration = None\<rparr>])"
  using handleAddUrl_refused
          [of "[\<lparr>url = js ''a''\<rparr>, \<lparr>url = js ''b''\<rparr>, \<lparr>url = js ''c''\<rparr>, \<lparr>url = js ''d''\<rparr>, \<lparr>url = []\<rparr>]" "js ''e''"]
        handleAddUrl_refused [of "[\<lparr>url = []\<rparr>, \<lparr>url = js ''b''\<rparr>]" "js ''b''"]
  by (simp add: js_def)

text \<open>
  C6. A quick-add that is not refused (fewer than five fields, the URL equal to no field's
  \<open>url\<close>) shows no snackbar. If some field's \<open>url\<close> is empty or consists of white space
  only, the first such field is replaced by an entry holding the new URL and the number of
  fields stays the same; otherwise an entry holding the new URL is added at the end and
  the number of fields grows by one.
\<close>


theorem handleAddUrl_accepted:
  assumes "length formFields < 5" and "\<forall>f \<in> set formFields. url f \<noteq> newUrl"
  shows "((\<exists>f \<in> set formFields. list_all isWhiteSpace (url f)) \<longrightarrow>
            (\<exists>i < length formFields.
               list_all isWhiteSpace (url (formFields ! i))
               \<and> (\<forall>j < i. \<not> list_all isWhiteSpace (url (formFields ! j)))
               \<and> handleAddUrl formFields newUrl = (formFields[i := \<lparr>url = newUrl\<rparr>], []))
            \<and> length (fst (handleAddUrl formFields newUrl)) = length formFields)
       \<and> (\<not> (\<exists>f \<in> set formFields. list_all isWhiteSpace (url f)) \<longrightarrow>
            handleAddUrl formFields newUrl = (formFields @ [\<lparr>url = newUrl\<rparr>], [])
            \<and> length (fst (handleAddUrl formFields newUrl)) = length formFields + 1)"
proof (cases "\<exists>f \<in> set formFields. list_all isWhiteSpace (url f)")
  case True
  let ?P = "\<lambda>field. list_all isWhiteSpace (url field)"
  from True have nn: "0 \<le> findIndex ?P formFields"
    by (simp add: findIndex_nonneg_iff)
  from accepted_handleAddUrl_eq [OF assms] nn
  have eq: "handleAddUrl formFields newUrl =
      (formFields[nat (findIndex ?P formFields) := \<lparr>url = newUrl\<rparr>], [])"
    by (simp add: Let_def)
  from findIndex_first [OF nn] eq True show ?thesis
    by auto
next
  case False
  let ?P = "\<lambda>field. list_all isWhiteSpace (url field)"
  from False have "\<not> 0 \<le> findIndex ?P formFields"
    by (simp add: findIndex_nonneg_iff)
  with accepted_handleAddUrl_eq [OF assms] False show ?thesis
    by (simp add: Let_def)
qed

theorem handleAddUrl_accepted_witness:
  "handleAddUrl [\<lparr>url = js ''a''\<rparr>, \<lparr>url = [0x3000]\<rparr>, \<lparr>url = []\<rparr>] (js ''b'')
     = ([\<lparr>url = js ''a''\<rparr>, \<lparr>url = js ''b''\<rparr>, \<lparr>url = []\<rparr>], [])
   \<and> handleAddUrl [\<lparr>url = js ''a''\<rparr>, \<lparr>url = js ''c d''\<rparr>] (js ''b'')
     = ([\<lparr>url = js ''a''\<rparr>, \<lparr>url = js ''c d''\<rparr>, \<lparr>url = js ''b''\<rparr>], [])"
proof -
  let ?fs = "[\<lparr>url = js ''a''\<rparr>, \<lparr>url = [0x3000]\<rparr>, \<lparr>url = []\<rparr>]"
  let ?gs = "[\<lparr>url = js ''a''\<rparr>, \<lparr>url = js ''c d''\<rparr>]"
  have f1: "length ?fs < 5" and g1: "length ?gs < 5"
    by simp_all
  have f2: "\<forall>f \<in> set ?fs. url f \<noteq> js ''b''" and g2: "\<forall>f \<in> set ?gs. url f \<noteq> js ''b''"
    by (simp_all add: js_def)
  have f3: "\<exists>f \<in> set ?fs. list_all isWhiteSpace (url f)"
    by simp
  have g3: "\<not> (\<exists>f \<in> set ?gs. list_all isWhiteSpace (url f))"
    by (simp add: isWhiteSpace_def js_def)
  from handleAddUrl_accepted [OF f1 f2] f3
  obtain i where i: "i < length ?fs" "list_all isWhiteSpace (url (?fs ! i))"
      "\<forall>j < i. \<not> list_all isWhiteSpace (url (?fs ! j))"
      "handleAddUrl ?fs (js ''b'') = (?fs[i := \<lparr>url = js ''b''\<rparr>], [])"
    by blast
  have "i = 1"
  proof -
    from i(1) have "i = 0 \<or> i = 1 \<or> i = 2" by auto
    moreover have "i \<noteq> 0"
    proof
      assume "i = 0"
      with i(2) show False by (simp add: isWhiteSpace_def js_def)
    qed
    moreover have "i \<noteq> 2"
    proof
      assume "i = 2"
      with i(3) have "\<forall>j < 2. \<not> list_all isWhiteSpace (url (?fs ! j))" by simp
      then have "(1::nat) < 2 \<longrightarrow> \<not> list_all isWhiteSpace (url (?fs ! 1))" by (rule spec)
      then have "\<not> list_all isWhiteSpace (url (?fs ! 1))" by simp
      then show False by (simp add: isWhiteSpace_def js_def)
    qed
    ultimately show ?thesis by blast
  qed
  with i(4) have a: "handleAddUrl ?fs (js ''b'') = ([\<lparr>url = js ''a''\<rparr>, \<lparr>url = js ''b''\<rparr>, \<lparr>url = []\<rparr>], [])"
    by simp
  from handleAddUrl_accepted [OF g1 g2] g3
  have b: "handleAddUrl ?gs (js ''b'') = ([\<lparr>url = js ''a''\<rparr>, \<lparr>url = js ''c d''\<rparr>, \<lparr>url = js ''b''\<rparr>], [])"
    by simp
  from a b show ?thesis
    by (rule conjI)
qed

text \<open>
  C9. Quick-add is idempotent on the field array: a second quick-add of the same URL, right
  after the first, leaves the field array as the first left it.
\<close>


theorem handleAddUrl_idempotent:
  "fst (handleAddUrl (fst (handleAddUrl formFields newUrl)) newUrl)
     = fst (handleAddUrl formFields newUrl)"
proof (cases "5 \<le> length formFields \<or> (\<exists>f \<in> set formFields. url f = newUrl)")
  case True
  then show ?thesis
    by (simp add: refused_keeps_fields)
next
  case False
  then have "\<exists>f \<in> set (fst (handleAddUrl formFields newUrl)). url f = newUrl"
    using handleAddUrl_present [of formFields newUrl] by auto
  then show ?thesis
    by (simp add: refused_keeps_fields)
qed

theorem handleAddUrl_idempotent_witness:
  "fst (handleAddUrl (fst (handleAddUrl [\<lparr>url = js ''a''\<rparr>, \<lparr>url = []\<rparr>] (js ''b''))) (js ''b''))
     = [\<lparr>url = js ''a''\<rparr>, \<lparr>url = js ''b''\<rparr>]"
proof -
  have "fst (handleAddUrl [\<lparr>url = js ''a''\<rparr>, \<lparr>url = []\<rparr>] (js ''b'')) = [\<lparr>url = js ''a''\<rparr>, \<lparr>url = js ''b''\<rparr>]"
    by code_simp
  with handleAddUrl_idempotent [of "[\<lparr>url = js ''a''\<rparr>, \<lparr>url = []\<rparr>]" "js ''b''"]
  show ?thesis by simp
qed

lemma count_list_map_filter:
  "count_list (map f (filter P xs)) y = length (filter (\<lambda>x. P x \<and> f x = y) xs)"
  by (induction xs) auto

section \<open>No deduplication on submit\<close>

text \<open>
  C2, as stated, fails: two fields holding the same address are both kept, and the list
  handed to \<open>onWebLinks\<close> holds the same URL twice.
\<close>


theorem submit_duplicates_counterexample:
  "handleSubmit asValidURL_model [\<lparr>url = js ''big-agi.com''\<rparr>, \<lparr>url = js ''big-agi.com''\<rparr>]
     = [OnWebLinks [\<lparr>url = js ''https://big-agi.com''\<rparr>, \<lparr>url = js ''https://big-agi.com''\<rparr>], OnClose]
   \<and> \<not> distinct (map url (cleanUrls asValidURL_model
                              [\<lparr>url = js ''big-agi.com''\<rparr>, \<lparr>url = js ''big-agi.com''\<rparr>]))"
  by code_simp

text \<open>
  C2, amended. The cleaning on submit trims and validates and does not deduplicate: the
  cleaned list has one entry for each kept entry, so a URL occurs in it as often as there
  are kept entries normalised to it. The only test for duplicates is that of quick-add,
  which leaves the field array alone when the URL is string-equal to the \<open>url\<close> of a field.
\<close>


theorem cleanUrls_keeps_duplicates:
  "length (cleanUrls v links) = length (filter (kept v) links)
   \<and> count_list (map url (cleanUrls v links)) u
       = length (filter (\<lambda>l. kept v l \<and> the (v (trim (url l)) True) = u) links)
   \<and> ((\<exists>f \<in> set formFields. url f = newUrl) \<longrightarrow>
        fst (handleAddUrl formFields newUrl) = formFields)"
proof -
  have "map url (cleanUrls v links)
          = map (\<lambda>l. the (v (trim (url l)) True)) (filter (kept v) links)"
    by (simp add: cleanUrls_eq_described cleanUrls_described_def normalized_def comp_def)
  then have "count_list (map url (cleanUrls v links)) u
       = length (filter (\<lambda>l. kept v l \<and> the (v (trim (url l)) True) = u) links)"
    by (simp add: count_list_map_filter)
  moreover have "length (cleanUrls v links) = length (filter (kept v) links)"
    by (simp add: cleanUrls_eq_described cleanUrls_described_def)
  moreover have "(\<exists>f \<in> set formFields. url f = newUrl) \<longrightarrow>
        fst (handleAddUrl formFields newUrl) = formFields"
    by (simp add: refused_keeps_fields)
  ultimately show ?thesis by blast
qed

theorem cleanUrls_keeps_duplicates_witness:
  "count_list (map url (cleanUrls asValidURL_model
       [\<lparr>url = js ''big-agi.com''\<rparr>, \<lparr>url = []\<rparr>, \<lparr>url = js ''big-agi.com ''\<rparr>])) (js ''https://big-agi.com'') = 2"
proof -
  have "length (filter (\<lambda>l. kept asValidURL_model l
            \<and> the (asValidURL_model (trim (url l)) True) = js ''https://big-agi.com'')
          [\<lparr>url = js ''big-agi.com''\<rparr>, \<lparr>url = []\<rparr>, \<lparr>url = js ''big-agi.com ''\<rparr>]) = 2"
    by code_simp
  with cleanUrls_keeps_duplicates [of asValidURL_model
         "[\<lparr>url = js ''big-agi.com''\<rparr>, \<lparr>url = []\<rparr>, \<lparr>url = js ''big-agi.com ''\<rparr>]" "js ''https://big-agi.com''"]
  show ?thesis by simp
qed

section \<open>Submitting nothing valid\<close>

text \<open>
  C3. If every submitted entry is blank after trimming or fails validation, the cleaned list
  is empty and \<open>handleSubmit\<close> does one thing only: it shows the \<open>issue\<close> snackbar reading
  \<open>Please enter at least one valid web address\<close>; neither \<open>onWebLinks\<close> nor \<open>onClose\<close> is
  called. Otherwise the cleaned list is non-empty, \<open>onWebLinks\<close> is called with it and then
  \<open>onClose\<close>. So \<open>onWebLinks\<close> is called exactly when the cleaned list is non-empty, and so
  is \<open>onClose\<close>.
\<close>


theorem handleSubmit_empty_or_handed:
  "((\<forall>l \<in> set links. trim (url l) = [] \<or> \<not> passesValidation v (trim (url l))) \<longrightarrow>
      cleanUrls v links = []
      \<and> handleSubmit v links =
          [AddSnackbar \<lparr>key = js ''invalid-urls'',
                        message = js ''Please enter at least one valid web address'',
                        type = Issue, autoHideDuration = Some 2000\<rparr>])
   \<and> (\<not> (\<forall>l \<in> set links. trim (url l) = [] \<or> \<not> passesValidation v (trim (url l))) \<longrightarrow>
      cleanUrls v links \<noteq> []
      \<and> handleSubmit v links = [OnWebLinks (cleanUrls v links), OnClose])
   \<and> ((\<exists>L. OnWebLinks L \<in> set (handleSubmit v links)) \<longleftrightarrow> cleanUrls v links \<noteq> [])
   \<and> (OnClose \<in> set (handleSubmit v links) \<longleftrightarrow> cleanUrls v links \<noteq> [])"
proof -
  have nil: "cleanUrls v links = []
      \<longleftrightarrow> (\<forall>l \<in> set links. trim (url l) = [] \<or> \<not> passesValidation v (trim (url l)))"
    by (simp add: cleanUrls_Nil_iff kept_def)
  show ?thesis
    unfolding nil [symmetric]
    by (simp add: handleSubmit_def handleClose_def invalidUrlsSnackbar_def Let_def)
qed

theorem handleSubmit_empty_or_handed_witness:
  "handleSubmit (\<lambda>t r. if 0x20 \<in> set t then None else asValidURL_model t r)
       [\<lparr>url = js ''  ''\<rparr>, \<lparr>url = js ''not a url''\<rparr>, \<lparr>url = []\<rparr>]
     = [AddSnackbar \<lparr>key = js ''invalid-urls'',
                      message = js ''Please enter at least one valid web address'',
                      type = Issue, autoHideDuration = Some 2000\<rparr>]
   \<and> handleSubmit (\<lambda>t r. if 0x20 \<in> set t then None else asValidURL_model t r)
       [\<lparr>url = js ''  ''\<rparr>, \<lparr>url = js ''not a url''\<rparr>, \<lparr>url = js '' a.com''\<rparr>]
     = [OnWebLinks [\<lparr>url = js ''https://a.com''\<rparr>], OnClose]"
proof -
  let ?v = "\<lambda>t r. if 0x20 \<in> set t then None else asValidURL_model t r"
  let ?bad = "[\<lparr>url = js ''  ''\<rparr>, \<lparr>url = js ''not a url''\<rparr>, \<lparr>url = []\<rparr>]"
  let ?good = "[\<lparr>url = js ''  ''\<rparr>, \<lparr>url = js ''not a url''\<rparr>, \<lparr>url = js '' a.com''\<rparr>]"
  have b: "\<forall>l \<in> set ?bad. trim (url l) = [] \<or> \<not> passesValidation ?v (trim (url l))"
    by code_simp
  have g: "\<not> (\<forall>l \<in> set ?good. trim (url l) = [] \<or> \<not> passesValidation ?v (trim (url l)))"
    by code_simp
  have c: "cleanUrls ?v ?good = [\<lparr>url = js ''https://a.com''\<rparr>]"
    by code_simp
  from handleSubmit_empty_or_handed [of ?bad ?v] b
  have 1: "handleSubmit ?v ?bad = [AddSnackbar \<lparr>key = js ''invalid-urls'',
                      message = js ''Please enter at least one valid web address'',
                      type = Issue, autoHideDuration = Some 2000\<rparr>]"
    by blast
  from handleSubmit_empty_or_handed [of ?good ?v] g
  have "handleSubmit ?v ?good = [OnWebLinks (cleanUrls ?v ?good), OnClose]"
    by blast
  then have 2: "handleSubmit ?v ?good = [OnWebLinks [\<lparr>url = js ''https://a.com''\<rparr>], OnClose]"
    unfolding c .
  from 1 2 show ?thesis by (rule conjI)
qed

lemma handleAddUrl_form_agrees:
  "formValues s = arrayFields s \<Longrightarrow>
     handleAddUrl_form s u =
       (if snd (handleAddUrl (arrayFields s) u) = []
        then published (fst (handleAddUrl (arrayFields s) u)) else s,
        snd (handleAddUrl (arrayFields s) u))"
  by (simp add: handleAddUrl_form_def handleAddUrl_def Let_def fieldArrayUpdate_def
        fieldArrayAppend_def)

lemma handleAddUrl_form_bounds:
  assumes "formInv s"
  shows "formInv (fst (handleAddUrl_form s u))
         \<and> (\<forall>L. OnWebLinks L \<notin> set (snd (handleAddUrl_form s u)))"
  using assms
  by (simp add: formInv_def handleAddUrl_form_def Let_def MAX_URLS_def fieldArrayUpdate_def
        fieldArrayAppend_def published_def formFieldsUpdate_def formFieldsAppend_def)

lemma formStep_bounds:
  assumes "formInv s"
  shows "formInv (fst (formStep v s e))
         \<and> (\<forall>L. OnWebLinks L \<in> set (snd (formStep v s e)) \<longrightarrow> length L \<le> 5)"
proof (cases e)
  case (ClickChip u)
  with handleAddUrl_form_bounds [OF assms, of u] show ?thesis
    by (simp add: formStep_def Let_def)
next
  case ClickAnother
  with assms show ?thesis
    by (simp add: formStep_def Let_def MAX_URLS_def formInv_def fieldArrayAppend_def
          published_def formFieldsAppend_def)
next
  case (ClickRemove i)
  with assms show ?thesis
    by (auto simp: formStep_def Let_def formInv_def fieldArrayRemove_def published_def
          formFieldsRemove_def)
next
  case (ChangeInput i x)
  with assms show ?thesis
    by (simp add: formStep_def Let_def formInv_def)
next
  case SubmitForm
  have "length (cleanUrls v (formValues s)) \<le> 5"
    using length_cleanUrls [of v "formValues s"] assms by (simp add: formInv_def)
  with SubmitForm assms show ?thesis
    by (simp add: formStep_def Let_def OnWebLinks_handleSubmit)
qed

lemma formRun_bounds:
  "formInv s \<Longrightarrow>
     formInv (fst (formRun v s evs))
     \<and> (\<forall>L. OnWebLinks L \<in> set (snd (formRun v s evs)) \<longrightarrow> length L \<le> 5)"
proof (induction evs arbitrary: s)
  case Nil
  then show ?case by simp
next
  case (Cons e es)
  from formStep_bounds [OF Cons.prems, of v e]
  have i: "formInv (fst (formStep v s e))"
    and o: "\<forall>L. OnWebLinks L \<in> set (snd (formStep v s e)) \<longrightarrow> length L \<le> 5"
    by blast+
  from Cons.IH [OF i] o show ?case
    by (auto simp: split_beta Let_def)
qed

section \<open>The number of fields\<close>

text \<open>
  C4. The form starts with one field. After any sequence of events the number of fields is
  between 1 and 5, there are as many values as fields, and every list handed to
  \<open>onWebLinks\<close> has at most 5 entries. With five fields a quick-add and a click on
  \<open>Another\<close> leave the form as it is; with one field there is no delete button, and a
  removal changes nothing.
\<close>


theorem field_count_bounds:
  "length (arrayFields initialForm) = 1 \<and> length (formValues initialForm) = 1
   \<and> (formRun v initialForm evs = (s, out) \<longrightarrow>
        1 \<le> length (arrayFields s) \<and> length (arrayFields s) \<le> 5
        \<and> length (formValues s) = length (arrayFields s)
        \<and> (\<forall>L. OnWebLinks L \<in> set out \<longrightarrow> length L \<le> 5))
   \<and> (length (arrayFields t) = 5 \<longrightarrow>
        fst (formStep v t (ClickChip u)) = t \<and> fst (formStep v t ClickAnother) = t)
   \<and> (length (arrayFields t) \<le> 1 \<longrightarrow> fst (formStep v t (ClickRemove i)) = t)"
proof -
  have "formInv initialForm"
    by (simp add: formInv_def initialForm_def)
  note run = formRun_bounds [OF this, of v evs]
  have "formRun v initialForm evs = (s, out) \<longrightarrow>
        1 \<le> length (arrayFields s) \<and> length (arrayFields s) \<le> 5
        \<and> length (formValues s) = length (arrayFields s)
        \<and> (\<forall>L. OnWebLinks L \<in> set out \<longrightarrow> length L \<le> 5)"
  proof
    assume eq: "formRun v initialForm evs = (s, out)"
    from run show "1 \<le> length (arrayFields s) \<and> length (arrayFields s) \<le> 5
        \<and> length (formValues s) = length (arrayFields s)
        \<and> (\<forall>L. OnWebLinks L \<in> set out \<longrightarrow> length L \<le> 5)"
      unfolding eq by (simp add: formInv_def)
  qed
  moreover have "length (arrayFields t) = 5 \<longrightarrow>
        fst (formStep v t (ClickChip u)) = t \<and> fst (formStep v t ClickAnother) = t"
    by (simp add: formStep_def handleAddUrl_form_def Let_def MAX_URLS_def)
  moreover have "length (arrayFields t) \<le> 1 \<longrightarrow> fst (formStep v t (ClickRemove i)) = t"
    by (simp add: formStep_def Let_def)
  moreover have "length (arrayFields initialForm) = 1 \<and> length (formValues initialForm) = 1"
    by (simp add: initialForm_def)
  ultimately show ?thesis by blast
qed

theorem field_count_bounds_witness:
  "formRun asValidURL_model initialForm
      [ClickChip (js ''a.com''), ClickChip (js ''b.org''), ClickAnother, ClickAnother,
       ClickAnother, ClickAnother, ClickChip (js ''c.net''), ClickRemove 4, ClickRemove 3,
       ChangeInput 2 (js ''c.net''), SubmitForm]
     = (\<lparr>arrayFields = [\<lparr>url = js ''a.com''\<rparr>, \<lparr>url = js ''b.org''\<rparr>, \<lparr>url = []\<rparr>],
         formValues = [\<lparr>url = js ''a.com''\<rparr>, \<lparr>url = js ''b.org''\<rparr>, \<lparr>url = js ''c.net''\<rparr>]\<rparr>,
        [AddSnackbar maxUrlsSnackbar,
         OnWebLinks [\<lparr>url = js ''https://a.com''\<rparr>, \<lparr>url = js ''https://b.org''\<rparr>,
                     \<lparr>url = js ''https://c.net''\<rparr>],
         OnClose])
   \<and> length [\<lparr>url = js ''https://a.com''\<rparr>, \<lparr>url = js ''https://b.org''\<rparr>,
               \<lparr>url = js ''https://c.net''\<rparr>] \<le> 5"
proof -
  let ?evs = "[ClickChip (js ''a.com''), ClickChip (js ''b.org''), ClickAnother, ClickAnother,
       ClickAnother, ClickAnother, ClickChip (js ''c.net''), ClickRemove 4, ClickRemove 3,
       ChangeInput 2 (js ''c.net''), SubmitForm]"
  let ?s = "\<lparr>arrayFields = [\<lparr>url = js ''a.com''\<rparr>, \<lparr>url = js ''b.org''\<rparr>, \<lparr>url = []\<rparr>],
         formValues = [\<lparr>url = js ''a.com''\<rparr>, \<lparr>url = js ''b.org''\<rparr>, \<lparr>url = js ''c.net''\<rparr>]\<rparr>"
  let ?L = "[\<lparr>url = js ''https://a.com''\<rparr>, \<lparr>url = js ''https://b.org''\<rparr>, \<lparr>url = js ''https://c.net''\<rparr>]"
  let ?out = "[AddSnackbar maxUrlsSnackbar, OnWebLinks ?L, OnClose]"
  have run: "formRun asValidURL_model initialForm ?evs = (?s, ?out)"
    by code_simp
  have "OnWebLinks ?L \<in> set ?out"
    by simp
  with field_count_bounds [of asValidURL_model ?evs ?s ?out] run
  have "length ?L \<le> 5"
    by blast
  with run show ?thesis by (rule conjI)
qed

text \<open>
  What is typed into a row is not seen by quick-add until an operation of the field array
  publishes it: a chip clicked after typing into the only row replaces what was typed,
  also when the typed text is the chip's URL; and a URL added by a chip is still found
  present after the row was retyped.
\<close>


lemma typed_text_is_not_read_by_quick_add:
  "formRun asValidURL_model initialForm
      [ChangeInput 0 (js ''a.com''), ClickChip (js ''b.org''), SubmitForm]
     = (published [\<lparr>url = js ''b.org''\<rparr>],
        [OnWebLinks [\<lparr>url = js ''https://b.org''\<rparr>], OnClose])"
  "formRun asValidURL_model initialForm [ChangeInput 0 (js ''a.com''), ClickChip (js ''a.com'')]
     = (published [\<lparr>url = js ''a.com''\<rparr>], [])"
  "formRun asValidURL_model initialForm
      [ClickChip (js ''a.com''), ChangeInput 0 (js ''b.org''), ClickChip (js ''a.com'')]
     = (\<lparr>arrayFields = [\<lparr>url = js ''a.com''\<rparr>], formValues = [\<lparr>url = js ''b.org''\<rparr>]\<rparr>,
        [AddSnackbar duplicateUrlSnackbar])"
  by code_simp+

lemma cleanStep_relaxed: "cleanStep v = cleanStep (\<lambda>t relaxProtocol. v t True)"
  by (intro ext) (simp add: cleanStep_def)

lemma kept_model: "kept asValidURL_model l \<longleftrightarrow> trim (url l) \<noteq> []"
  by (simp add: kept_def passesValidation_def asValidURL_model_def)

lemma normalized_model:
  "trim (url l) \<noteq> [] \<Longrightarrow>
     normalized asValidURL_model l =
       l\<lparr>url := (if hasScheme (trim (url l)) then trim (url l) else js ''https://'' @ trim (url l))\<rparr>"
  by (simp add: normalized_def asValidURL_model_def)

lemma chips_children:
  "map children (map (\<lambda>(index, u). \<lparr>chipKey = index, onClick = u, startDecorator = d u,
                                        children = u\<rparr>) (enumerate n xs)) = xs"
  by (induction xs arbitrary: n) simp_all

lemma chips_onClick:
  "map onClick (map (\<lambda>(index, u). \<lparr>chipKey = index, onClick = u, startDecorator = d u,
                                       children = u\<rparr>) (enumerate n xs)) = xs"
  by (induction xs arbitrary: n) simp_all

lemma chips_chipKey:
  "map chipKey (map (\<lambda>(index, u). \<lparr>chipKey = index, onClick = u, startDecorator = d u,
                                       children = u\<rparr>) (enumerate n xs)) = [n ..< n + length xs]"
proof -
  have "map chipKey (map (\<lambda>(index, u). \<lparr>chipKey = index, onClick = u, startDecorator = d u,
                                       children = u\<rparr>) (enumerate n xs)) = map fst (enumerate n xs)"
    by (simp add: case_prod_beta comp_def)
  then show ?thesis
    by (simp only: map_fst_enumerate)
qed

section \<open>Relaxed validation\<close>

text \<open>
  C7. \<open>handleSubmit\<close> uses the validator in relaxed mode only: replacing the validator by
  one that ignores its flag and validates relaxed changes nothing. With the validator as
  the glossary describes it, every entry that is not blank is handed back, with its trimmed
  text when that carries a scheme and with \<open>https://\<close> in front of its trimmed text
  otherwise; so a bare domain is accepted and handed back as an \<open>https://\<close> URL.
\<close>


theorem relaxed_validation_bare_domain:
  "handleSubmit v links = handleSubmit (\<lambda>t relaxProtocol. v t True) links
   \<and> cleanUrls asValidURL_model links =
       map (\<lambda>l. l\<lparr>url := (if hasScheme (trim (url l)) then trim (url l)
                          else js ''https://'' @ trim (url l))\<rparr>)
         (filter (\<lambda>l. trim (url l) \<noteq> []) links)
   \<and> (trim u \<noteq> [] \<and> \<not> hasScheme (trim u) \<longrightarrow>
        handleSubmit asValidURL_model [\<lparr>url = u\<rparr>]
          = [OnWebLinks [\<lparr>url = js ''https://'' @ trim u\<rparr>], OnClose])"
proof -
  have 1: "handleSubmit v links = handleSubmit (\<lambda>t relaxProtocol. v t True) links"
    using cleanStep_relaxed [of v] by (simp add: handleSubmit_def cleanUrls_def)
  have 2: "cleanUrls asValidURL_model links =
       map (\<lambda>l. l\<lparr>url := (if hasScheme (trim (url l)) then trim (url l)
                          else js ''https://'' @ trim (url l))\<rparr>)
         (filter (\<lambda>l. trim (url l) \<noteq> []) links)"
    unfolding cleanUrls_eq_described cleanUrls_described_def
    by (induction links) (simp_all add: kept_model normalized_model)
  have 3: "trim u \<noteq> [] \<and> \<not> hasScheme (trim u) \<longrightarrow>
        handleSubmit asValidURL_model [\<lparr>url = u\<rparr>]
          = [OnWebLinks [\<lparr>url = js ''https://'' @ trim u\<rparr>], OnClose]"
    by (simp add: handleSubmit_def handleClose_def cleanUrls_eq_described cleanUrls_described_def
          kept_model normalized_model)
  from 1 2 3 show ?thesis by blast
qed

theorem relaxed_validation_bare_domain_witness:
  "handleSubmit asValidURL_model [\<lparr>url = js ''big-agi.com''\<rparr>]
     = [OnWebLinks [\<lparr>url = js ''https://big-agi.com''\<rparr>], OnClose]"
proof -
  have t: "trim (js ''big-agi.com'') = js ''big-agi.com''"
    by code_simp
  have h: "trim (js ''big-agi.com'') \<noteq> [] \<and> \<not> hasScheme (trim (js ''big-agi.com''))"
    by code_simp
  with relaxed_validation_bare_domain [of _ _ "js ''big-agi.com''"]
  have "handleSubmit asValidURL_model [\<lparr>url = js ''big-agi.com''\<rparr>]
          = [OnWebLinks [\<lparr>url = js ''https://'' @ trim (js ''big-agi.com'')\<rparr>], OnClose]"
    by blast
  then show ?thesis
    unfolding t by (simp add: js_def)
qed

section \<open>What the detected URLs section shows\<close>

text \<open>
  C8. The section is absent exactly when \<open>extractUrlsFromText\<close> finds nothing in the
  composer text. When present, its chips are, in order, the URLs found: the text of each
  chip and the argument of its click are the URL, the keys are the positions; and the
  title starts with the number of URLs found.
\<close>


theorem detected_section_renders_extracted:
  "(detectedUrlsSection extractUrlsFromText extractYoutubeVideoIDFromURL composerText = None
      \<longleftrightarrow> extractUrlsFromText composerText = [])
   \<and> (\<forall>sec. detectedUrlsSection extractUrlsFromText extractYoutubeVideoIDFromURL composerText
               = Some sec \<longrightarrow>
         map children (chips sec) = extractUrlsFromText composerText
         \<and> map onClick (chips sec) = extractUrlsFromText composerText
         \<and> map chipKey (chips sec) = [0 ..< length (extractUrlsFromText composerText)]
         \<and> title sec = decimal (length (extractUrlsFromText composerText)) @ js '' URL''
              @ (if length (extractUrlsFromText composerText) > 1 then js ''s'' else [])
              @ js '' found in your message'')"
proof (cases "extractUrlsFromText composerText = []")
  case True
  then show ?thesis
    by (simp add: detectedUrlsSection_def)
next
  case False
  let ?urls = "extractUrlsFromText composerText"
  let ?cs = "map (\<lambda>(index, u).
                   \<lparr>chipKey = index, onClick = u,
                    startDecorator = (if truthyOpt (extractYoutubeVideoIDFromURL u)
                                      then YouTubeIcon else LanguageRoundedIcon),
                    children = u\<rparr>)
                 (enumerate 0 ?urls)"
  let ?t = "decimal (length ?urls) @ js '' URL''
              @ (if length ?urls > 1 then js ''s'' else []) @ js '' found in your message''"
  from False
  have eq: "detectedUrlsSection extractUrlsFromText extractYoutubeVideoIDFromURL composerText
          = Some \<lparr>title = ?t, chips = ?cs\<rparr>"
    by (simp add: detectedUrlsSection_def Let_def)
  have "map children ?cs = ?urls" "map onClick ?cs = ?urls"
      "map chipKey ?cs = [0 ..< length ?urls]"
    using chips_children [of _ 0 ?urls] chips_onClick [of _ 0 ?urls]
      chips_chipKey [of _ 0 ?urls]
    by simp_all
  with False show ?thesis
    unfolding eq by simp
qed

theorem detected_section_renders_extracted_witness:
  "detectedUrlsSection (\<lambda>t. [take 9 t, drop 10 t]) (\<lambda>u. if take 2 u = js ''yt'' then Some u else None)
       (js ''http://a/ yt.be/x'')
     = Some \<lparr>title = js ''2 URLs found in your message'',
              chips = [\<lparr>chipKey = 0, onClick = js ''http://a/'', startDecorator = LanguageRoundedIcon,
                        children = js ''http://a/''\<rparr>,
                       \<lparr>chipKey = 1, onClick = js ''yt.be/x'', startDecorator = YouTubeIcon,
                        children = js ''yt.be/x''\<rparr>]\<rparr>
   \<and> map children [\<lparr>chipKey = 0, onClick = js ''http://a/'', startDecorator = LanguageRoundedIcon,
                        children = js ''http://a/''\<rparr>,
                       \<lparr>chipKey = 1, onClick = js ''yt.be/x'', startDecorator = YouTubeIcon,
                        children = js ''yt.be/x''\<rparr>] = [js ''http://a/'', js ''yt.be/x'']"
proof -
  let ?ex = "\<lambda>t :: jsstring. [take 9 t, drop 10 t]"
  let ?yt = "\<lambda>u :: jsstring. if take 2 u = js ''yt'' then Some u else None"
  let ?chips = "[\<lparr>chipKey = 0, onClick = js ''http://a/'', startDecorator = LanguageRoundedIcon,
                        children = js ''http://a/''\<rparr>,
                       \<lparr>chipKey = 1, onClick = js ''yt.be/x'', startDecorator = YouTubeIcon,
                        children = js ''yt.be/x''\<rparr>]"
  let ?sec = "\<lparr>title = js ''2 URLs found in your message'', chips = ?chips\<rparr>"
  have s: "detectedUrlsSection ?ex ?yt (js ''http://a/ yt.be/x'') = Some ?sec"
    by code_simp
  have e: "?ex (js ''http://a/ yt.be/x'') = [js ''http://a/'', js ''yt.be/x'']"
    by code_simp
  from detected_section_renders_extracted [of ?ex ?yt "js ''http://a/ yt.be/x''"] s
  have "map children (chips ?sec) = ?ex (js ''http://a/ yt.be/x'')"
    by blast
  then have c: "map children ?chips = [js ''http://a/'', js ''yt.be/x'']"
    unfolding e by (simp only: detectedUrls.simps)
  from s c show ?thesis by (rule conjI)
qed

lemma hookInv_mount: "hookInv (hookMount t) \<and> \<not> open (hookMount t)"
  by (simp add: hookInv_def hookMount_def hookRender_def)

lemma hookInv_render: "hookInv s \<Longrightarrow> hookInv (hookRender t c s) \<and> open (hookRender t c s) = open s"
  by (simp add: hookInv_def hookRender_def Let_def)

lemma hookInv_setOpen: "hookInv s \<Longrightarrow> hookInv (setOpen b s) \<and> open (setOpen b s) = b"
  by (cases b) (auto simp: hookInv_def setOpen_def hookRender_def Let_def)

lemma OnClose_handleSubmit: "OnClose \<in> set (handleSubmit v links) \<longleftrightarrow> cleanUrls v links \<noteq> []"
  by (simp add: handleSubmit_def handleClose_def Let_def)

lemma hookInv_step:
  assumes "hookInv s"
  shows "hookInv (fst (hookStep v s e))
     \<and> open (fst (hookStep v s e))
         = (if e = OpenWebInputDialog then True else if closes v e then False else open s)"
proof (cases e)
  case OpenWebInputDialog
  with hookInv_setOpen [OF assms, of True] show ?thesis
    by (simp add: hookStep_def)
next
  case CloseDialog
  with hookInv_setOpen [OF assms, of False] assms show ?thesis
    by (auto simp: hookStep_def closes_def fromDialog_def handleClose_def hookInv_def)
next
  case (SubmitDialog links)
  with hookInv_setOpen [OF assms, of False] assms show ?thesis
    by (auto simp: hookStep_def closes_def fromDialog_def OnClose_handleSubmit hookInv_def)
next
  case (Rerender t c)
  with hookInv_render [OF assms, of t c] show ?thesis
    by (simp add: hookStep_def closes_def)
qed

lemma hookInv_run:
  "hookInv s \<Longrightarrow>
     hookInv (hookRun v s evs) \<and> open (hookRun v s evs) = openedNotClosed v (open s) evs"
proof (induction evs arbitrary: s)
  case Nil
  then show ?case by simp
next
  case (Cons e es)
  from hookInv_step [OF Cons.prems, of v e]
  have i: "hookInv (fst (hookStep v s e))"
    and o: "open (fst (hookStep v s e))
         = (if e = OpenWebInputDialog then True else if closes v e then False else open s)"
    by blast+
  from Cons.IH [OF i] show ?case
    by (simp add: o)
qed

lemma closes_Open: "\<not> closes v OpenWebInputDialog"
  by (simp add: closes_def)

lemma openedNotClosed_iff:
  "openedNotClosed v b evs \<longleftrightarrow>
     (\<exists>pre post. evs = pre @ OpenWebInputDialog # post \<and> (\<forall>e \<in> set post. \<not> closes v e))
     \<or> (b \<and> (\<forall>e \<in> set evs. \<not> closes v e))"
proof (induction evs arbitrary: b)
  case Nil
  then show ?case by simp
next
  case (Cons e es)
  have split: "(\<exists>pre post. e # es = pre @ OpenWebInputDialog # post \<and> (\<forall>x \<in> set post. \<not> closes v x))
      \<longleftrightarrow> (e = OpenWebInputDialog \<and> (\<forall>x \<in> set es. \<not> closes v x))
          \<or> (\<exists>pre post. es = pre @ OpenWebInputDialog # post \<and> (\<forall>x \<in> set post. \<not> closes v x))"
    by (auto simp: Cons_eq_append_conv)
  show ?case
    unfolding split
    using closes_Open [of v] by (auto simp: Cons.IH)
qed

section \<open>The hook\<close>

text \<open>
  C10. After any sequence of events from the first render, the dialog component is present
  exactly when some \<open>openWebInputDialog\<close> is followed by no event that closes the dialog
  (a close or cancel, or a submit that hands links back). \<open>handleClose\<close> calls \<open>onClose\<close>
  only: closing the dialog makes no call that leaves the hook, so \<open>onAttachWebLinks\<close> is not
  called; all it does is set \<open>open\<close> to false, after which the render drops the component.
\<close>


theorem dialog_rendered_iff_open:
  "(webInputDialogComponent (hookRun v (hookMount t) evs) \<noteq> None
      \<longleftrightarrow> (\<exists>pre post. evs = pre @ OpenWebInputDialog # post \<and> (\<forall>e \<in> set post. \<not> closes v e)))
   \<and> handleClose = [OnClose]
   \<and> snd (hookStep v s CloseDialog) = []
   \<and> (webInputDialogComponent (hookRun v (hookMount t) evs) \<noteq> None \<longrightarrow>
        fst (hookStep v (hookRun v (hookMount t) evs) CloseDialog)
          = (hookRun v (hookMount t) evs)
              \<lparr>open := False, webInputDialogComponent := None, memoOpen := Some False\<rparr>)"
proof -
  let ?s = "hookRun v (hookMount t) evs"
  from hookInv_mount [of t] hookInv_run [of "hookMount t" v evs]
  have inv: "hookInv ?s" and op: "open ?s = openedNotClosed v False evs"
    by simp_all
  from inv op have 1: "webInputDialogComponent ?s \<noteq> None
      \<longleftrightarrow> (\<exists>pre post. evs = pre @ OpenWebInputDialog # post \<and> (\<forall>e \<in> set post. \<not> closes v e))"
    by (simp add: hookInv_def openedNotClosed_iff)
  have 2: "snd (hookStep v s CloseDialog) = []"
    by (simp add: hookStep_def fromDialog_def handleClose_def)
  from inv have 3: "webInputDialogComponent ?s \<noteq> None \<longrightarrow>
        fst (hookStep v ?s CloseDialog)
          = ?s\<lparr>open := False, webInputDialogComponent := None, memoOpen := Some False\<rparr>"
    by (simp add: hookStep_def fromDialog_def handleClose_def setOpen_def hookRender_def
          hookInv_def Let_def)
  from 1 2 3 show ?thesis
    by (simp add: handleClose_def)
qed

theorem dialog_rendered_iff_open_witness:
  "webInputDialogComponent
      (hookRun asValidURL_model (hookMount (js ''see big-agi.com''))
         [OpenWebInputDialog, CloseDialog, Rerender (js ''see a.com'') False, OpenWebInputDialog,
          SubmitDialog [\<lparr>url = js '' ''\<rparr>]]) = Some (js ''see a.com'')
   \<and> hookStep asValidURL_model
        (hookRun asValidURL_model (hookMount (js ''see big-agi.com''))
           [OpenWebInputDialog, CloseDialog, Rerender (js ''see a.com'') False, OpenWebInputDialog,
            SubmitDialog [\<lparr>url = js '' ''\<rparr>]]) CloseDialog
      = (\<lparr>open = False, composerTextRef = js ''see a.com'', webInputDialogComponent = None,
          memoOpen = Some False\<rparr>, [])"
proof -
  let ?evs = "[OpenWebInputDialog, CloseDialog, Rerender (js ''see a.com'') False, OpenWebInputDialog,
          SubmitDialog [\<lparr>url = js '' ''\<rparr>]]"
  let ?s = "hookRun asValidURL_model (hookMount (js ''see big-agi.com'')) ?evs"
  have run: "?s = \<lparr>open = True, composerTextRef = js ''see a.com'',
                   webInputDialogComponent = Some (js ''see a.com''), memoOpen = Some True\<rparr>"
    by code_simp
  then have r: "webInputDialogComponent ?s \<noteq> None"
    by simp
  note inst = dialog_rendered_iff_open [of asValidURL_model "js ''see big-agi.com''" ?evs ?s]
  from inst r have f: "fst (hookStep asValidURL_model ?s CloseDialog)
          = ?s\<lparr>open := False, webInputDialogComponent := None, memoOpen := Some False\<rparr>"
    by blast
  from inst have e: "snd (hookStep asValidURL_model ?s CloseDialog) = []"
    by blast
  have "hookStep asValidURL_model ?s CloseDialog
      = (\<lparr>open = False, composerTextRef = js ''see a.com'', webInputDialogComponent = None,
          memoOpen = Some False\<rparr>, [])"
    using f e unfolding run by (simp add: prod_eq_iff)
  moreover from run have "webInputDialogComponent ?s = Some (js ''see a.com'')"
    by simp
  ultimately show ?thesis by blast
qed

end
